theory Spec2Isabelle
  imports Complex_Main
begin

section \<open>Python values used by the argument model\<close>

text \<open>
  The port grammar of \<open>NetcatArgumentParser.port\<close> rests on two built-ins of the
  language: \<open>int(str)\<close> and \<open>str.split(sep)\<close>. Both are modelled for ASCII text
  (a \<open>string\<close> is a list of bytes). \<open>int\<close> strips white space, reads one optional
  sign and then decimal digits, where single underscores may stand between two digits;
  any other text is a \<open>ValueError\<close>, here \<open>None\<close>.
\<close>

definition py_isspace :: "char \<Rightarrow> bool" where
  "py_isspace c \<longleftrightarrow>
     (let k = (of_char c :: nat) in (9 \<le> k \<and> k \<le> 13) \<or> (28 \<le> k \<and> k \<le> 32))"

definition strip :: "string \<Rightarrow> string" where
  "strip s = rev (dropWhile py_isspace (rev (dropWhile py_isspace s)))"

definition digit_of :: "char \<Rightarrow> int option" where
  "digit_of c =
     (let k = (of_char c :: nat) in if 48 \<le> k \<and> k \<le> 57 then Some (int k - 48) else None)"

fun py_digits :: "int \<Rightarrow> string \<Rightarrow> int option" where
  "py_digits acc [] = Some acc"
| "py_digits acc [c] =
     (case digit_of c of None \<Rightarrow> None | Some v \<Rightarrow> Some (10 * acc + v))"
| "py_digits acc (c # c' # cs) =
     (if c = CHR ''_''
      then (case digit_of c' of None \<Rightarrow> None | Some v \<Rightarrow> py_digits (10 * acc + v) cs)
      else (case digit_of c of None \<Rightarrow> None | Some v \<Rightarrow> py_digits (10 * acc + v) (c' # cs)))"

definition py_nat_literal :: "string \<Rightarrow> int option" where
  "py_nat_literal s =
     (case s of [] \<Rightarrow> None
      | c # cs \<Rightarrow> (case digit_of c of None \<Rightarrow> None | Some v \<Rightarrow> py_digits v cs))"

definition py_int :: "string \<Rightarrow> int option" where
  "py_int s =
     (case strip s of [] \<Rightarrow> None
      | c # cs \<Rightarrow>
          if c = CHR ''-'' then map_option uminus (py_nat_literal cs)
          else if c = CHR ''+'' then py_nat_literal cs
          else py_nat_literal (c # cs))"

text \<open>\<open>value.split(sep)\<close>: the pieces between the separators, never an empty list.\<close>

fun split_on :: "char \<Rightarrow> string \<Rightarrow> string list" where
  "split_on sep [] = [[]]"
| "split_on sep (c # cs) =
     (if c = sep then [] # split_on sep cs
      else (c # hd (split_on sep cs)) # tl (split_on sep cs))"

text \<open>\<open>str(n)\<close> for an integer, as \<open>str.format\<close> prints a port number.\<close>

fun str_nat :: "nat \<Rightarrow> string" where
  "str_nat n =
     (if n < 10 then [''0123456789'' ! n]
      else str_nat (n div 10) @ [''0123456789'' ! (n mod 10)])"

declare str_nat.simps [simp del]

definition str_int :: "int \<Rightarrow> string" where
  "str_int n = (if n < 0 then CHR ''-'' # str_nat (nat (- n)) else str_nat (nat n))"

section \<open>The port grammar (NetcatArgumentParser.port, NetcatPortAction)\<close>

text \<open>
  \<open>compat.range(a, b)\<close> is the lazy ascending sequence from \<open>a\<close> up to, not
  including, \<open>b\<close>; it is kept as its two bounds, and \<open>range_elems\<close> lists what
  iterating it yields.
\<close>

record prange =
  start :: int
  stop :: int

definition range_elems :: "prange \<Rightarrow> int list" where
  "range_elems r = [start r .. stop r - 1]"

datatype value_error = InvalidLiteral string | InvalidPort int

definition valid_port :: "int \<Rightarrow> bool" where
  "valid_port v \<longleftrightarrow> 1 \<le> v \<and> v \<le> 65535"

text \<open>
  \<open>port\<close>: the list comprehension and the unpacking into two names raise
  \<open>ValueError\<close> unless the token has exactly two pieces that are both integers; the
  handler then reads the whole token as one integer.
\<close>

definition port :: "string \<Rightarrow> value_error + prange" where
  "port v =
     (case those (map py_int (split_on CHR ''-'' v)) of
        Some [start_port, end_port] \<Rightarrow>
          (let lo = (if start_port > end_port then end_port else start_port);
               hi = (if start_port > end_port then start_port else end_port)
           in if \<not> valid_port lo then Inl (InvalidPort lo)
              else if \<not> valid_port hi then Inl (InvalidPort hi)
              else Inr \<lparr>start = lo, stop = hi + 1\<rparr>)
      | _ \<Rightarrow>
          (case py_int v of
             None \<Rightarrow> Inl (InvalidLiteral v)
           | Some n \<Rightarrow>
               if \<not> valid_port n then Inl (InvalidPort n)
               else Inr \<lparr>start = n, stop = n + 1\<rparr>))"

text \<open>
  The argument parser converts every token of the positional \<open>port\<close> with \<open>port\<close>
  and stops at the first token that fails.
\<close>

fun convert_tokens :: "string list \<Rightarrow> value_error + prange list" where
  "convert_tokens [] = Inr []"
| "convert_tokens (t # ts) =
     (case port t of
        Inl e \<Rightarrow> Inl e
      | Inr r \<Rightarrow> (case convert_tokens ts of Inl e \<Rightarrow> Inl e | Inr rs \<Rightarrow> Inr (r # rs)))"

text \<open>
  The value of the \<open>port\<close> attribute of a namespace: \<open>None\<close> (the default), a
  plain integer, or the chained iterator over the sorted ranges, kept as the list of
  ports it yields.
\<close>

datatype port_value = PortInt int | PortChain "int list"

text \<open>
  \<open>NetcatPortAction.__call__\<close>: the second argument is the attribute's value before
  the call, the result its value after it.
\<close>

definition NetcatPortAction :: "prange list \<Rightarrow> port_value option \<Rightarrow> port_value option" where
  "NetcatPortAction values cur =
     (if values = [] then cur
      else if length values = 1 \<and> start (values ! 0) = stop (values ! 0) - 1
      then Some (PortInt (start (values ! 0)))
      else Some (PortChain (concat (map range_elems (sort_key start values)))))"

definition parse_port_tokens :: "string list \<Rightarrow> value_error + port_value option" where
  "parse_port_tokens toks =
     (case convert_tokens toks of
        Inl e \<Rightarrow> Inl e
      | Inr values \<Rightarrow> Inr (NetcatPortAction values None))"



section \<open>Mode inference (NetcatArgumentParser.parse_args) and the Netcat factory\<close>

text \<open>
  The general-group namespace, with the attributes that mode inference reads: the
  positional \<open>dest\<close> (default the empty string), the positional \<open>port\<close> as the
  port action left it, the source port \<open>-p\<close> and the flag \<open>-u\<close>. Every other
  option is handed on unchanged. The argument of \<open>parse_args\<close> below is the state right
  after \<open>group_parse_args\<close>; \<open>l\<close> is the server group's flag \<open>-l\<close>.
\<close>

record general_args =
  ns_dest :: string
  ns_port :: "port_value option"
  ns_p :: "int option"
  ns_u :: bool

text \<open>
  Truth values as the \<open>if\<close> statements of \<open>parse_args\<close> take them: an empty
  string, \<open>None\<close> and the integer 0 are false, every iterator object is true.
\<close>

definition truthy_port :: "port_value option \<Rightarrow> bool" where
  "truthy_port v =
     (case v of None \<Rightarrow> False | Some (PortInt n) \<Rightarrow> n \<noteq> 0 | Some (PortChain xs) \<Rightarrow> True)"

definition truthy_p :: "int option \<Rightarrow> bool" where
  "truthy_p v = (case v of None \<Rightarrow> False | Some n \<Rightarrow> n \<noteq> 0)"

text \<open>
  The parser leaves by \<open>SystemExit\<close> in two ways: \<open>print_usage\<close> followed by
  \<open>exit\<close>, and the error it reports when a conversion function raises
  \<open>ValueError\<close>.
\<close>

datatype parser_exit = UsageExit | ArgumentError value_error

definition parse_args :: "bool \<Rightarrow> general_args \<Rightarrow> parser_exit + general_args" where
  "parse_args l args =
     (let d = (ns_dest args \<noteq> []); pt = truthy_port (ns_port args); p = truthy_p (ns_p args) in
      if l then
        (if d \<and> pt \<and> \<not> p then Inr args
         else if d \<and> \<not> pt \<and> \<not> p then
           (case parse_port_tokens [ns_dest args] of
              Inl e \<Rightarrow> Inl (ArgumentError e)
            | Inr v \<Rightarrow> Inr (args\<lparr>ns_port := v, ns_dest := []\<rparr>))
         else if \<not> d \<and> \<not> pt \<and> p then Inr args
         else if d \<and> \<not> pt \<and> p then Inr args
         else if d \<and> pt \<and> p then Inr args
         else Inl UsageExit)
      else
        (if d \<and> pt then Inr args
         else if d \<and> pt \<and> p then Inr args
         else Inl UsageExit))"

text \<open>
  \<open>Netcat.__new__\<close> chooses one of four classes and calls its constructor; the value
  records the class and the \<open>dest\<close>, \<open>port\<close> and \<open>p\<close> that the constructor
  receives.
\<close>

datatype netcat =
    UDPServer "port_value option" string
  | TCPServer "port_value option" string
  | UDPClient string "port_value option" "int option"
  | TCPClient string "port_value option" "int option"

definition Netcat_new ::
  "string \<Rightarrow> port_value option \<Rightarrow> bool \<Rightarrow> bool \<Rightarrow> int option \<Rightarrow> netcat" where
  "Netcat_new dest prt l u p =
     (if l then
        (let prt' = (case p of None \<Rightarrow> prt | Some sp \<Rightarrow> Some (PortInt sp)) in
         if u then UDPServer prt' dest else TCPServer prt' dest)
      else
        (if u then UDPClient dest prt p else TCPClient dest prt p))"

definition from_args :: "bool \<Rightarrow> general_args \<Rightarrow> parser_exit + netcat" where
  "from_args l args =
     (case parse_args l args of
        Inl e \<Rightarrow> Inl e
      | Inr a \<Rightarrow> Inr (Netcat_new (ns_dest a) (ns_port a) l (ns_u a) (ns_p a)))"

text \<open>
  \<open>NetcatServer.__init__\<close>: an empty \<open>dest\<close> becomes the wildcard address, and a
  port that is not an integer is replaced by its \<open>repr\<close>. \<open>_server_bind\<close> then binds
  the socket to the pair \<open>(dest, port)\<close> of the instance.
\<close>

datatype server_port = ServerPortInt int | ServerPortRepr "port_value option"

record server =
  srv_dest :: string
  srv_port :: server_port

definition NetcatServer_init :: "port_value option \<Rightarrow> string \<Rightarrow> server" where
  "NetcatServer_init prt dest =
     \<lparr>srv_dest = (if dest = [] then ''0.0.0.0'' else dest),
      srv_port = (case prt of Some (PortInt n) \<Rightarrow> ServerPortInt n | other \<Rightarrow> ServerPortRepr other)\<rparr>"

definition bind_address :: "netcat \<Rightarrow> (string \<times> server_port) option" where
  "bind_address nc =
     (case nc of
        UDPServer prt dest \<Rightarrow>
          Some (srv_dest (NetcatServer_init prt dest), srv_port (NetcatServer_init prt dest))
      | TCPServer prt dest \<Rightarrow>
          Some (srv_dest (NetcatServer_init prt dest), srv_port (NetcatServer_init prt dest))
      | _ \<Rightarrow> None)"

section \<open>Process wrappers (process.py)\<close>













section \<open>Sockets, connections and the client (NetcatConnection.close, NetcatClient)\<close>

text \<open>
  A socket object of the language's library: \<open>close()\<close> marks it closed and
  releases the descriptor the first time it is called, and does nothing on a socket
  that is closed already. \<open>releases\<close> counts how often the descriptor was released and
  \<open>close_calls\<close> how often \<open>close()\<close> was called.
\<close>

record sock =
  sock_closed :: bool
  releases :: nat
  close_calls :: nat

definition socket_close :: "sock \<Rightarrow> sock" where
  "socket_close s =
     (if sock_closed s then s\<lparr>close_calls := Suc (close_calls s)\<rparr>
      else s\<lparr>sock_closed := True, releases := Suc (releases s),
             close_calls := Suc (close_calls s)\<rparr>)"

text \<open>
  A connection holds its one socket \<open>net\<close> (an index into the sockets of the world)
  and the peer's port as \<open>getpeername\<close> reports it, which is the port that was
  connected to.
\<close>

record connection =
  net :: nat
  conn_port :: int

text \<open>
  The world: every socket created so far, every connection constructed so far, and the
  lines written to the error stream (each without its final newline).
\<close>

record world =
  socks :: "sock list"
  conns :: "connection list"
  stderr :: "string list"

definition world0 :: world where
  "world0 = \<lparr>socks = [], conns = [], stderr = []\<rparr>"

definition socket_new :: "world \<Rightarrow> nat \<times> world" where
  "socket_new w =
     (length (socks w),
      w\<lparr>socks := socks w @ [\<lparr>sock_closed = False, releases = 0, close_calls = 0\<rparr>]\<rparr>)"

definition NetcatConnection_close :: "connection \<Rightarrow> world \<Rightarrow> world" where
  "NetcatConnection_close c w = w\<lparr>socks := (socks w)[net c := socket_close (socks w ! net c)]\<rparr>"

definition sock_open :: "world \<Rightarrow> connection \<Rightarrow> bool" where
  "sock_open w c \<longleftrightarrow> net c < length (socks w) \<and> \<not> sock_closed (socks w ! net c)"

definition print_verbose :: "bool \<Rightarrow> string \<Rightarrow> world \<Rightarrow> world" where
  "print_verbose v message w =
     (if v \<and> message \<noteq> [] then w\<lparr>stderr := stderr w @ [message]\<rparr> else w)"

text \<open>
  The client's options that iteration reads. \<open>X\<close> is one of the three proxy
  protocols (\<open>_client_init\<close> looks it up before any connect); a port in a message is
  an integer or, for a proxy port that is not a number, the \<open>repr\<close> of its text
  (quoted; escapes are not modelled).
\<close>

datatype proxy_protocol = Socks5 | Socks4 | HttpConnect

record client =
  cl_dest :: string
  cl_v :: bool
  cl_n :: bool
  cl_z :: bool
  cl_x :: "string option"
  cl_X :: proxy_protocol
  cl_protocol_name :: string

datatype pyport = PyInt int | PyRepr string

definition str_port :: "pyport \<Rightarrow> string" where
  "str_port p = (case p of PyInt n \<Rightarrow> str_int n | PyRepr s \<Rightarrow> CHR 0x27 # s @ [CHR 0x27])"

definition v_conn_succeeded :: "string \<Rightarrow> pyport \<Rightarrow> string \<Rightarrow> string \<Rightarrow> string" where
  "v_conn_succeeded dest p proto_name proto =
     ''Connection to '' @ dest @ '' '' @ str_port p @ '' port ['' @ proto_name @ ''/'' @ proto @
     ''] succeeded!''"

definition v_conn_refused :: "string \<Rightarrow> pyport \<Rightarrow> string \<Rightarrow> string" where
  "v_conn_refused dest p proto_name =
     ''connect to '' @ dest @ '' port '' @ str_port p @ '' ('' @ proto_name @
     '') failed: Connection refused''"

definition proxy_address :: "string \<Rightarrow> string" where
  "proxy_address x = takeWhile (\<lambda>c. c \<noteq> CHR '':'') x"

definition proxy_port :: "string \<Rightarrow> proxy_protocol \<Rightarrow> pyport" where
  "proxy_port x X =
     (if CHR '':'' \<in> set x then
        (let p = tl (dropWhile (\<lambda>c. c \<noteq> CHR '':'') x) in
         case py_int p of Some n \<Rightarrow> PyInt n | None \<Rightarrow> PyRepr p)
      else PyInt (case X of Socks5 \<Rightarrow> 1080 | Socks4 \<Rightarrow> 1080 | HttpConnect \<Rightarrow> 3128))"

text \<open>
  What one call of \<open>_create_connection\<close> meets: the connect succeeds, or it raises the
  refusal error, a proxy error (its message and, when present, the number and message
  of the socket error it wraps), another socket error (number and message), or address
  resolution fails with the wrapped socket error. \<open>a_service\<close> is what the service
  lookup by port returns, \<open>None\<close> when it fails.
\<close>

datatype connect_outcome =
    Connected
  | RaisesConnectionRefusedError
  | RaisesProxyError string "(int \<times> string) option"
  | RaisesSocketError int string
  | RaisesNetcatSocketError string

record attempt =
  a_port :: int
  a_outcome :: connect_outcome
  a_service :: "string option"

definition ECONNREFUSED :: int where
  "ECONNREFUSED = 111"

datatype client_exn =
    StopIteration
  | ConnectionRefused string pyport
  | NetcatSocketError string
  | NetcatProxyError string
  | AttributeError

definition conn_refused :: "client \<Rightarrow> pyport \<Rightarrow> string option \<Rightarrow> world \<Rightarrow> client_exn \<times> world" where
  "conn_refused cl p dest w =
     (let d = (case dest of None \<Rightarrow> cl_dest cl | Some d' \<Rightarrow> d') in
      (ConnectionRefused (cl_dest cl) p,
       print_verbose (cl_v cl) (v_conn_refused d p (cl_protocol_name cl)) w))"

definition conn_succeeded :: "client \<Rightarrow> int \<Rightarrow> string option \<Rightarrow> world \<Rightarrow> world" where
  "conn_succeeded cl p service w =
     (let proto = (if \<not> cl_n cl then (case service of None \<Rightarrow> ''*'' | Some s \<Rightarrow> s) else ''*'') in
      print_verbose (cl_v cl) (v_conn_succeeded (cl_dest cl) (PyInt p) (cl_protocol_name cl) proto) w)"

text \<open>
  \<open>next_connection\<close>: the list is what the port iterator still holds; the result is
  the connection or the exception raised, the rest of the ports, and the world after
  the call. A socket exists from \<open>_client_init\<close> on, so every outcome but a failed
  address resolution has created one.
\<close>

fun next_connection ::
  "client \<Rightarrow> attempt list \<Rightarrow> world \<Rightarrow> (client_exn + connection) \<times> attempt list \<times> world" where
  "next_connection cl [] w = (Inl StopIteration, [], w)"
| "next_connection cl (a # rest) w =
     (case a_outcome a of
        RaisesNetcatSocketError msg \<Rightarrow> (Inl (NetcatSocketError msg), rest, w)
      | RaisesConnectionRefusedError \<Rightarrow>
          (let (e, w') = conn_refused cl (PyInt (a_port a)) None (snd (socket_new w))
           in (Inl e, rest, w'))
      | RaisesProxyError msg serr \<Rightarrow>
          (case serr of
             None \<Rightarrow> (Inl (NetcatProxyError msg), rest, snd (socket_new w))
           | Some (errno, smsg) \<Rightarrow>
               if errno = ECONNREFUSED then
                 (case cl_x cl of
                    None \<Rightarrow> (Inl AttributeError, rest, snd (socket_new w))
                  | Some x \<Rightarrow>
                      (let (e, w') = conn_refused cl (proxy_port x (cl_X cl))
                             (Some (proxy_address x)) (snd (socket_new w))
                       in (Inl e, rest, w')))
               else (Inl (NetcatProxyError smsg), rest, snd (socket_new w)))
      | RaisesSocketError errno msg \<Rightarrow>
          if errno \<noteq> ECONNREFUSED then (Inl (NetcatSocketError msg), rest, snd (socket_new w))
          else
            (let (e, w') = conn_refused cl (PyInt (a_port a)) None (snd (socket_new w))
             in (Inl e, rest, w'))
      | Connected \<Rightarrow>
          (let (sid, w1) = socket_new w;
               nc_conn = \<lparr>net = sid, conn_port = a_port a\<rparr>;
               w2 = w1\<lparr>conns := conns w1 @ [nc_conn]\<rparr>;
               w3 = conn_succeeded cl (a_port a) (a_service a) w2;
               w4 = (if cl_z cl then NetcatConnection_close nc_conn w3 else w3)
           in (Inr nc_conn, rest, w4)))"

text \<open>
  \<open>iter_connections\<close>, run to its end by a caller that takes every connection it is
  given, calls \<open>close\<close> on it \<open>caller c\<close> times (0 when it leaves closing to the
  iterator) and asks for the next one. The result lists the connections yielded, each
  with whether its socket was open when it was handed over, the exception that left the
  generator (\<open>None\<close> when it returned), and the world at the end.
\<close>

function iter_connections ::
  "client \<Rightarrow> (connection \<Rightarrow> nat) \<Rightarrow> attempt list \<Rightarrow> world \<Rightarrow>
     (connection \<times> bool) list \<times> client_exn option \<times> world" where
  "iter_connections cl caller atts w =
     (case next_connection cl atts w of
        (Inl StopIteration, rest, w') \<Rightarrow> ([], None, w')
      | (Inl (ConnectionRefused d p), rest, w') \<Rightarrow> iter_connections cl caller rest w'
      | (Inl e, rest, w') \<Rightarrow> ([], Some e, w')
      | (Inr nc_conn, rest, w') \<Rightarrow>
          (if \<not> cl_z cl then
             (let w1 = (NetcatConnection_close nc_conn ^^ caller nc_conn) w';
                  w2 = NetcatConnection_close nc_conn w1;
                  (ys, e, w_end) = iter_connections cl caller rest w2
              in ((nc_conn, sock_open w' nc_conn) # ys, e, w_end))
           else iter_connections cl caller rest (NetcatConnection_close nc_conn w')))"
  by pat_completeness auto
termination
proof (relation "measure (\<lambda>(cl, caller, atts, w). length atts)")
  show "wf (measure (\<lambda>(cl, caller, atts, w). length atts))" by simp
next
  fix cl :: client and caller :: "connection \<Rightarrow> nat" and atts :: "attempt list" and w :: world
    and r rest w' y
  assume "(r, y) = next_connection cl atts w" and "(rest, w') = y"
  then have n: "next_connection cl atts w = (r, rest, w')" by simp
  {
    fix e d p
    assume "r = Inl e" and "e = ConnectionRefused d p"
    with n have "length rest < length atts"
      by (cases atts)
        (auto simp: Let_def conn_refused_def socket_new_def
          split: connect_outcome.splits option.splits if_splits prod.splits)
    then show "((cl, caller, rest, w'), cl, caller, atts, w)
        \<in> measure (\<lambda>(cl, caller, atts, w). length atts)" by simp
  }
  {
    fix c
    assume "r = Inr c"
    with n have l: "length rest < length atts"
      by (cases atts)
        (auto simp: Let_def conn_refused_def socket_new_def
          split: connect_outcome.splits option.splits if_splits prod.splits)
    {
      fix w1 w2
      show "((cl, caller, rest, w2), cl, caller, atts, w)
          \<in> measure (\<lambda>(cl, caller, atts, w). length atts)" using l by simp
    }
    show "((cl, caller, rest, NetcatConnection_close c w'), cl, caller, atts, w)
        \<in> measure (\<lambda>(cl, caller, atts, w). length atts)" using l by simp
  }
qed

text \<open>
  The outcomes of an attempt in the words of the specification: the port accepts; it is
  refused, locally or at the proxy hop (a proxy error that wraps a refusal, which only
  a client with a proxy can meet); anything else is fatal. \<open>attempt_message\<close> is the
  verbose line an attempt that is not fatal calls for, \<open>fatal_error\<close> the error a
  fatal one raises.
\<close>

definition accepts :: "attempt \<Rightarrow> bool" where
  "accepts a \<longleftrightarrow> a_outcome a = Connected"

definition refused_locally :: "attempt \<Rightarrow> bool" where
  "refused_locally a =
     (case a_outcome a of
        RaisesConnectionRefusedError \<Rightarrow> True
      | RaisesSocketError errno msg \<Rightarrow> errno = ECONNREFUSED
      | _ \<Rightarrow> False)"

definition refused_at_proxy :: "client \<Rightarrow> attempt \<Rightarrow> bool" where
  "refused_at_proxy cl a =
     (case a_outcome a of
        RaisesProxyError msg (Some (errno, smsg)) \<Rightarrow> errno = ECONNREFUSED \<and> cl_x cl \<noteq> None
      | _ \<Rightarrow> False)"

definition fatal :: "client \<Rightarrow> attempt \<Rightarrow> bool" where
  "fatal cl a \<longleftrightarrow> \<not> (accepts a \<or> refused_locally a \<or> refused_at_proxy cl a)"

definition fatal_error :: "attempt \<Rightarrow> client_exn" where
  "fatal_error a =
     (case a_outcome a of
        RaisesNetcatSocketError msg \<Rightarrow> NetcatSocketError msg
      | RaisesSocketError errno msg \<Rightarrow> NetcatSocketError msg
      | RaisesProxyError msg None \<Rightarrow> NetcatProxyError msg
      | RaisesProxyError msg (Some (errno, smsg)) \<Rightarrow>
          if errno = ECONNREFUSED then AttributeError else NetcatProxyError smsg
      | _ \<Rightarrow> StopIteration)"

definition attempt_message :: "client \<Rightarrow> attempt \<Rightarrow> string" where
  "attempt_message cl a =
     (if accepts a then
        v_conn_succeeded (cl_dest cl) (PyInt (a_port a)) (cl_protocol_name cl)
          (if cl_n cl then ''*'' else (case a_service a of None \<Rightarrow> ''*'' | Some s \<Rightarrow> s))
      else if refused_locally a then
        v_conn_refused (cl_dest cl) (PyInt (a_port a)) (cl_protocol_name cl)
      else
        (case cl_x cl of
           None \<Rightarrow> []
         | Some x \<Rightarrow>
             v_conn_refused (proxy_address x) (proxy_port x (cl_X cl)) (cl_protocol_name cl)))"

text \<open>
  The attempts that iteration reaches: those before the first fatal one.
\<close>

definition reached :: "client \<Rightarrow> attempt list \<Rightarrow> attempt list" where
  "reached cl atts = takeWhile (\<lambda>a. \<not> fatal cl a) atts"

text \<open>
  Every connection constructed so far has a socket of its own, which is closed and was
  released exactly once.
\<close>

definition released_once :: "world \<Rightarrow> bool" where
  "released_once w \<longleftrightarrow>
     list_all (\<lambda>c. net c < length (socks w) \<and> sock_closed (socks w ! net c) \<and>
        releases (socks w ! net c) = 1) (conns w) \<and>
     distinct (map net (conns w))"

declare iter_connections.simps [simp del]

text \<open>
  A socket is either untouched or closed and released once; \<open>close()\<close> keeps that.
\<close>

definition sock_ok :: "sock \<Rightarrow> bool" where
  "sock_ok s \<longleftrightarrow> (sock_closed s \<and> releases s = 1) \<or> (\<not> sock_closed s \<and> releases s = 0)"

text \<open>
  A caller that never closes a connection itself, a verbose client for one host, and
  three port lists with what the network answers: a refused port followed by an open
  one, and a port behind a proxy that refuses.
\<close>

definition never_closes :: "connection \<Rightarrow> nat" where
  "never_closes c = 0"

definition localhost_client :: client where
  "localhost_client =
     \<lparr>cl_dest = ''localhost'', cl_v = True, cl_n = True, cl_z = False, cl_x = None,
      cl_X = Socks5, cl_protocol_name = ''tcp''\<rparr>"

definition refused_then_open :: "attempt list" where
  "refused_then_open =
     [\<lparr>a_port = 8000, a_outcome = RaisesConnectionRefusedError, a_service = None\<rparr>,
      \<lparr>a_port = 8001, a_outcome = Connected, a_service = None\<rparr>]"

definition proxy_refuses :: "attempt list" where
  "proxy_refuses =
     [\<lparr>a_port = 8000,
       a_outcome = RaisesProxyError ''proxy down'' (Some (111, ''Connection refused'')),
       a_service = None\<rparr>]"

section \<open>The relay loop (NetcatConnection.readwrite)\<close>

text \<open>
  The exceptions the loop meets: an operating-system (socket) error with its number,
  \<open>ValueError\<close>, \<open>TypeError\<close> and the internal signal \<open>StopReadWrite\<close>.
\<close>

datatype relay_exn = OSError int | ValueError | TypeError | StopReadWrite

definition EPIPE :: int where
  "EPIPE = 32"

text \<open>
  The options of a connection that the loop reads (\<open>w\<close> is \<open>None\<close> when no idle
  timeout was given), and whether it is the UDP kind, whose \<open>recv\<close> turns socket
  errors into \<open>StopReadWrite\<close>.
\<close>

record relay_opts =
  opt_C :: bool
  opt_d :: bool
  opt_i :: int
  opt_q :: int
  opt_w :: "int option"
  opt_udp :: bool

text \<open>
  The loop's variables \<open>netin_eof\<close>, \<open>stdin_eof\<close> and \<open>idle_time\<close>, and what the
  loop has done to the outside: which halves of the socket it shut down, the chunks the
  socket took for sending, and the chunks written to the output stream. Clock readings
  are real numbers of seconds.
\<close>

record relay_state =
  netin_eof :: bool
  stdin_eof :: "real option"
  idle_time :: real
  rd_shut :: bool
  wr_shut :: bool
  net_sent :: "string list"
  stdout_written :: "string list"

text \<open>
  What the outside does during one pass of the loop: the results of \<open>select\<close>, of
  the socket's \<open>recv\<close>, of the read on the input stream (\<open>None\<close> when a
  non-blocking stream has nothing) and of \<open>sendall\<close> (\<open>None\<close> when it succeeds),
  and the clock readings at the five places where the loop reads the clock. A result is
  used only if the pass reaches the call.
\<close>

record tick =
  t_select :: "relay_exn + bool"
  t_recv :: "relay_exn + string"
  t_stdin :: "relay_exn + string option"
  t_send :: "relay_exn option"
  now_recv :: real
  now_send :: real
  now_eof :: real
  now_quit :: real
  now_idle :: real

datatype relay_exit = NetEOF | RecvFailed | BrokenPipe | QuitDelay | IdleTimeout | Stopped

text \<open>
  One pass either goes on to the next pass, ends the loop (\<open>break\<close> or \<open>return\<close>), or
  lets an exception leave \<open>readwrite\<close>.
\<close>

datatype step_result =
    Continue relay_state
  | Exit relay_exit relay_state
  | Raise relay_exn relay_state

fun state_of :: "step_result \<Rightarrow> relay_state" where
  "state_of (Continue s) = s"
| "state_of (Exit r s) = s"
| "state_of (Raise e s) = s"

text \<open>\<open>NetcatConnection.recv\<close> with \<open>blocking=False\<close>, and the UDP override.\<close>

definition recv :: "(relay_exn + bool) \<Rightarrow> (relay_exn + string) \<Rightarrow> relay_exn + string option" where
  "recv sel rcv =
     (case sel of
        Inl ValueError \<Rightarrow> map_sum id Some rcv
      | Inl e \<Rightarrow> Inl e
      | Inr can_read \<Rightarrow> if can_read then map_sum id Some rcv else Inr None)"

definition conn_recv ::
  "bool \<Rightarrow> (relay_exn + bool) \<Rightarrow> (relay_exn + string) \<Rightarrow> relay_exn + string option" where
  "conn_recv udp sel rcv =
     (case recv sel rcv of
        Inl (OSError n) \<Rightarrow> if udp then Inl StopReadWrite else Inl (OSError n)
      | r \<Rightarrow> r)"

text \<open>
  The socket refuses to send once its write half is shut down: \<open>sendall\<close> then raises
  the broken-pipe error and sends nothing.
\<close>

definition sendall :: "relay_state \<Rightarrow> relay_exn option \<Rightarrow> relay_exn option" where
  "sendall s outcome = (if wr_shut s then Some (OSError EPIPE) else outcome)"

definition crlf :: "string \<Rightarrow> string" where
  "crlf data = concat (map (\<lambda>c. if c = CHR 0x0A then [CHR 0x0D, CHR 0x0A] else [c]) data)"

text \<open>The part of a pass under the comment \<open>netin\<close>.\<close>

definition netin :: "relay_opts \<Rightarrow> tick \<Rightarrow> relay_state \<Rightarrow> step_result" where
  "netin c t s =
     (case conn_recv (opt_udp c) (t_select t) (t_recv t) of
        Inl (OSError n) \<Rightarrow> Exit RecvFailed s
      | Inl e \<Rightarrow> Raise e s
      | Inr None \<Rightarrow> Continue s
      | Inr (Some net_data) \<Rightarrow>
          if net_data \<noteq> [] then
            Continue (s\<lparr>stdout_written := stdout_written s @ [net_data], idle_time := now_recv t\<rparr>)
          else Continue (s\<lparr>rd_shut := True, netin_eof := True\<rparr>))"

text \<open>The part under \<open>netout\<close>, for input that is not empty.\<close>

definition netout :: "relay_opts \<Rightarrow> tick \<Rightarrow> string \<Rightarrow> relay_state \<Rightarrow> step_result" where
  "netout c t stdin_data s =
     (let data = (if opt_C c then crlf stdin_data else stdin_data) in
      case sendall s (t_send t) of
        Some (OSError n) \<Rightarrow> if n \<noteq> EPIPE then Raise (OSError n) s else Exit BrokenPipe s
      | Some e \<Rightarrow> Raise e s
      | None \<Rightarrow> Continue (s\<lparr>net_sent := net_sent s @ [data], idle_time := now_send t\<rparr>))"

text \<open>
  The part for end-of-stream on the input. \<open>not stdin_eof\<close> is true for \<open>None\<close> and
  for the number 0.
\<close>

definition stdin_at_eof :: "relay_opts \<Rightarrow> tick \<Rightarrow> relay_state \<Rightarrow> step_result" where
  "stdin_at_eof c t s =
     (let s1 = (if stdin_eof s = None \<or> stdin_eof s = Some 0
                then s\<lparr>stdin_eof := Some (now_eof t)\<rparr> else s);
          s2 = (if opt_q c = 0 then s1\<lparr>wr_shut := True\<rparr> else s1)
      in if opt_q c > 0 then
           (case stdin_eof s2 of
              None \<Rightarrow> Raise TypeError s2
            | Some first_eof \<Rightarrow>
                if now_quit t - first_eof \<ge> real_of_int (opt_q c) then Exit QuitDelay s2
                else Continue s2)
         else Continue s2)"

text \<open>The idle-timeout test that closes the block of \<open>if not self.d\<close>.\<close>

definition idle_check :: "relay_opts \<Rightarrow> tick \<Rightarrow> relay_state \<Rightarrow> step_result" where
  "idle_check c t s =
     (case opt_w c of
        None \<Rightarrow> Continue s
      | Some w \<Rightarrow>
          if now_idle t - idle_time s \<ge> real_of_int w then Exit IdleTimeout s else Continue s)"

definition stdin_step :: "relay_opts \<Rightarrow> tick \<Rightarrow> relay_state \<Rightarrow> step_result" where
  "stdin_step c t s =
     (if \<not> opt_d c then
        (case t_stdin t of
           Inl e \<Rightarrow> Raise e s
         | Inr stdin_data \<Rightarrow>
             (case (case stdin_data of
                      None \<Rightarrow> Continue s
                    | Some b \<Rightarrow> if b \<noteq> [] then netout c t b s else stdin_at_eof c t s) of
                Continue s' \<Rightarrow> idle_check c t s'
              | r \<Rightarrow> r))
      else Continue s)"

text \<open>
  One pass of the \<open>while\<close> loop: the body of the \<open>try\<close>, and the handler that
  turns \<open>StopReadWrite\<close> into a \<open>break\<close>. \<open>time.sleep\<close> raises \<open>ValueError\<close>
  for a negative interval; a sleep changes nothing but the clock, whose readings the tick
  holds.
\<close>

definition try_body :: "relay_opts \<Rightarrow> tick \<Rightarrow> relay_state \<Rightarrow> step_result" where
  "try_body c t s =
     (if netin_eof s then Exit NetEOF s
      else if opt_i c < 0 then Raise ValueError s
      else (case netin c t s of
              Continue s' \<Rightarrow> stdin_step c t s'
            | r \<Rightarrow> r))"

definition iteration :: "relay_opts \<Rightarrow> tick \<Rightarrow> relay_state \<Rightarrow> step_result" where
  "iteration c t s =
     (case try_body c t s of
        Raise StopReadWrite s' \<Rightarrow> Exit Stopped s'
      | r \<Rightarrow> r)"

text \<open>
  The loop over what the outside does, pass by pass. The loop has no bound of its own:
  when the list ends and the loop has not, the result is \<open>Continue\<close> with the state
  reached, which says that the loop is still running.
\<close>

fun readwrite_loop :: "relay_opts \<Rightarrow> tick list \<Rightarrow> relay_state \<Rightarrow> step_result" where
  "readwrite_loop c [] s = Continue s"
| "readwrite_loop c (t # ts) s =
     (case iteration c t s of
        Continue s' \<Rightarrow> readwrite_loop c ts s'
      | r \<Rightarrow> r)"

definition readwrite :: "relay_opts \<Rightarrow> real \<Rightarrow> tick list \<Rightarrow> step_result" where
  "readwrite c start_time ticks =
     readwrite_loop c ticks
       \<lparr>netin_eof = False, stdin_eof = None, idle_time = start_time, rd_shut = False,
        wr_shut = False, net_sent = [], stdout_written = []\<rparr>"

text \<open>
  A pass in which nothing happens at clock reading \<open>now\<close>: the socket is not
  readable and the input stream has nothing. And a pass in which the input stream is at
  its end.
\<close>

definition silent_tick :: "real \<Rightarrow> tick" where
  "silent_tick now =
     \<lparr>t_select = Inr False, t_recv = Inr [], t_stdin = Inr None, t_send = None,
      now_recv = now, now_send = now, now_eof = now, now_quit = now, now_idle = now\<rparr>"


definition relay_defaults :: relay_opts where
  "relay_defaults =
     \<lparr>opt_C = False, opt_d = False, opt_i = 0, opt_q = 0, opt_w = None, opt_udp = False\<rparr>"

text \<open>
  The time of the first end-of-stream on the input, as a pass that meets end-of-stream
  in state \<open>s\<close> knows it: the time recorded earlier, or the clock now.
\<close>

definition first_eof :: "relay_state \<Rightarrow> tick \<Rightarrow> real" where
  "first_eof s t = (case stdin_eof s of None \<Rightarrow> now_eof t | Some t0 \<Rightarrow> t0)"


section \<open>The run operation (pync)\<close>

text \<open>
  \<open>pync\<close> sets \<open>exit.status\<close> to 1, and runs \<open>from_args\<close> and the relay inside one
  \<open>try\<close>. Three overridden methods assign 0 to \<open>exit.status\<close> when they are called:
  \<open>_conn_succeeded\<close> of the clients, \<open>_listening\<close> of the servers and
  \<open>print_help\<close> of the parser. What the \<open>try\<close> block did is the list of these calls
  in order, and how it ended: it finished, or it raised a structured library error with
  its message, a keyboard interrupt, the parser's \<open>SystemExit\<close>, or any other
  exception (the relay re-raises a send error that is not a broken pipe, for one).
\<close>

datatype hook = ConnSucceeded | Listening | PrintHelp

datatype raised = NetcatError string | KeyboardInterrupt | SystemExit | OtherException string

record try_block =
  hooks :: "hook list"
  ending :: "raised option"

text \<open>
  The result is the integer returned, or the exception that leaves \<open>pync\<close>, together
  with what \<open>pync\<close> itself writes to the error stream.
\<close>

definition pync :: "try_block \<Rightarrow> (string + int) \<times> string list" where
  "pync b =
     (let status = fold (\<lambda>h st. 0) (hooks b) (1::int) in
      case ending b of
        None \<Rightarrow> (Inr status, [])
      | Some (NetcatError msg) \<Rightarrow> (Inr 1, [''pync: '' @ msg @ [CHR 0x0A]])
      | Some KeyboardInterrupt \<Rightarrow> (Inr 130, [[CHR 0x0A]])
      | Some SystemExit \<Rightarrow> (Inr status, [])
      | Some (OtherException e) \<Rightarrow> (Inl e, []))"

text \<open>
  The parser exits before any client or server exists: after \<open>print_help\<close> for
  \<open>-h\<close>, and with no hook called for a usage violation or a conversion error.
\<close>

definition help_exit :: try_block where
  "help_exit = \<lparr>hooks = [PrintHelp], ending = Some SystemExit\<rparr>"

definition usage_exit :: try_block where
  "usage_exit = \<lparr>hooks = [], ending = Some SystemExit\<rparr>"

text \<open>
  How a relay that ran inside the \<open>try\<close> block ends the block: \<open>readwrite\<close>
  returned, or an exception left it. None of the relay's exceptions is a library error.
\<close>

definition exception_name :: "relay_exn \<Rightarrow> string" where
  "exception_name e =
     (case e of OSError n \<Rightarrow> ''OSError'' | ValueError \<Rightarrow> ''ValueError''
      | TypeError \<Rightarrow> ''TypeError'' | StopReadWrite \<Rightarrow> ''StopReadWrite'')"

definition ending_of_relay :: "step_result \<Rightarrow> raised option" where
  "ending_of_relay r =
     (case r of Raise e s \<Rightarrow> Some (OtherException (exception_name e)) | _ \<Rightarrow> None)"

text \<open>
  A pass in which the input stream delivers a byte and the peer has reset the connection:
  \<open>sendall\<close> fails with error number 104, which is not the broken-pipe error.
\<close>

definition reset_tick :: tick where
  "reset_tick =
     \<lparr>t_select = Inr False, t_recv = Inr [], t_stdin = Inr (Some ''x''),
      t_send = Some (OSError 104), now_recv = 1, now_send = 1, now_eof = 1, now_quit = 1,
      now_idle = 1\<rparr>"

section \<open>Properties of the port grammar\<close>



























section \<open>Properties of mode inference and of the factory\<close>



text \<open>
  Claim C10: with \<open>l\<close> true and a source port \<open>p\<close> supplied, the factory hands \<open>p\<close>
  to the server's constructor as its port, whatever the positional port was, and the
  server binds port \<open>p\<close>. This is the case of \<open>parse_args\<close> in which \<open>dest\<close>,
  \<open>port\<close> and \<open>-p\<close> are all given.
\<close>

theorem listen_source_port_precedence:
  "Netcat_new dest prt True u (Some p) =
     (if u then UDPServer (Some (PortInt p)) dest else TCPServer (Some (PortInt p)) dest) \<and>
   map_option snd (bind_address (Netcat_new dest prt True u (Some p))) = Some (ServerPortInt p) \<and>
   (ns_dest args \<noteq> [] \<and> truthy_port (ns_port args) \<and> ns_p args = Some p \<longrightarrow>
      from_args True args =
        Inr (if ns_u args then UDPServer (Some (PortInt p)) (ns_dest args)
             else TCPServer (Some (PortInt p)) (ns_dest args)))"
  by (auto simp: Netcat_new_def bind_address_def NetcatServer_init_def from_args_def
      parse_args_def truthy_p_def Let_def)

theorem listen_source_port_precedence_witness:
  "Netcat_new ''localhost'' (Some (PortInt 8001)) True False (Some 8000) =
     TCPServer (Some (PortInt 8000)) ''localhost'' \<and>
   from_args True \<lparr>ns_dest = ''localhost'', ns_port = Some (PortInt 8001), ns_p = Some 8000,
       ns_u = False\<rparr> = Inr (TCPServer (Some (PortInt 8000)) ''localhost'')"
  using listen_source_port_precedence [of "''localhost''" "Some (PortInt 8001)" False 8000
      "\<lparr>ns_dest = ''localhost'', ns_port = Some (PortInt 8001), ns_p = Some 8000, ns_u = False\<rparr>"]
  by (simp add: truthy_port_def)

section \<open>Properties of the process wrappers\<close>









section \<open>Properties of client iteration\<close>

lemma socket_close_done: "sock_closed (socket_close s)"
  by (simp add: socket_close_def)

lemma socket_close_releases:
  "releases (socket_close s) = (if sock_closed s then releases s else Suc (releases s))"
  by (simp add: socket_close_def)

lemma close_frame [simp]:
  "stderr (NetcatConnection_close c w) = stderr w"
  "conns (NetcatConnection_close c w) = conns w"
  "length (socks (NetcatConnection_close c w)) = length (socks w)"
  by (simp_all add: NetcatConnection_close_def)

lemma close_other:
  "j \<noteq> net c \<Longrightarrow> socks (NetcatConnection_close c w) ! j = socks w ! j"
  by (simp add: NetcatConnection_close_def)

lemma close_self:
  "j = net c \<Longrightarrow> j < length (socks w) \<Longrightarrow>
     socks (NetcatConnection_close c w) ! j = socket_close (socks w ! j)"
  by (simp add: NetcatConnection_close_def)

lemma closes_frame [simp]:
  "stderr ((NetcatConnection_close c ^^ k) w) = stderr w"
  "conns ((NetcatConnection_close c ^^ k) w) = conns w"
  "length (socks ((NetcatConnection_close c ^^ k) w)) = length (socks w)"
  by (induction k) simp_all

lemma closes_other:
  "j \<noteq> net c \<Longrightarrow> socks ((NetcatConnection_close c ^^ k) w) ! j = socks w ! j"
  by (induction k) (simp_all add: close_other)

lemma socket_close_ok: "sock_ok s \<Longrightarrow> sock_ok (socket_close s)"
  by (auto simp: sock_ok_def socket_close_def)

lemma socket_close_ok_done:
  "sock_ok s \<Longrightarrow> sock_closed (socket_close s) \<and> releases (socket_close s) = 1"
  by (auto simp: sock_ok_def socket_close_def)

lemma closes_self_ok:
  "j = net c \<Longrightarrow> j < length (socks w) \<Longrightarrow> sock_ok (socks w ! j) \<Longrightarrow>
     sock_ok (socks ((NetcatConnection_close c ^^ k) w) ! j)"
  by (induction k) (simp_all add: close_self socket_close_ok)

lemma close_after_closes_done:
  assumes "j = net c" and "j < length (socks w)" and "sock_ok (socks w ! j)"
  shows "sock_closed (socks (NetcatConnection_close c ((NetcatConnection_close c ^^ k) w)) ! j) \<and>
         releases (socks (NetcatConnection_close c ((NetcatConnection_close c ^^ k) w)) ! j) = 1"
  using assms by (simp add: close_self closes_self_ok socket_close_ok_done)

lemma print_verbose_frame [simp]:
  "socks (print_verbose v m w) = socks w"
  "conns (print_verbose v m w) = conns w"
  by (simp_all add: print_verbose_def)

lemma v_conn_refused_nonempty: "v_conn_refused d p n \<noteq> []"
  by (simp add: v_conn_refused_def)

lemma v_conn_succeeded_nonempty: "v_conn_succeeded d p n s \<noteq> []"
  by (simp add: v_conn_succeeded_def)

lemma print_verbose_stderr_refused:
  "stderr (print_verbose v (v_conn_refused d p n) w) =
     stderr w @ (if v then [v_conn_refused d p n] else [])"
  by (simp add: print_verbose_def v_conn_refused_nonempty)

lemma print_verbose_stderr_succeeded:
  "stderr (print_verbose v (v_conn_succeeded d p n s) w) =
     stderr w @ (if v then [v_conn_succeeded d p n s] else [])"
  by (simp add: print_verbose_def v_conn_succeeded_nonempty)

text \<open>The three kinds of attempt, one equation of \<open>next_connection\<close> each.\<close>

lemma next_connection_accepts:
  assumes "accepts a"
  shows "\<exists>w'. next_connection cl (a # rest) w =
            (Inr \<lparr>net = length (socks w), conn_port = a_port a\<rparr>, rest, w') \<and>
          stderr w' = stderr w @ (if cl_v cl then [attempt_message cl a] else []) \<and>
          conns w' = conns w @ [\<lparr>net = length (socks w), conn_port = a_port a\<rparr>] \<and>
          length (socks w') = Suc (length (socks w)) \<and>
          (\<forall>j<length (socks w). socks w' ! j = socks w ! j) \<and>
          sock_ok (socks w' ! length (socks w)) \<and>
          sock_closed (socks w' ! length (socks w)) = cl_z cl"
  using assms
  by (auto simp: accepts_def socket_new_def conn_succeeded_def attempt_message_def Let_def
      print_verbose_def v_conn_succeeded_nonempty NetcatConnection_close_def nth_append
      sock_ok_def socket_close_def)

lemma next_connection_refused:
  assumes "refused_locally a \<or> refused_at_proxy cl a"
  shows "\<exists>d p w'. next_connection cl (a # rest) w = (Inl (ConnectionRefused d p), rest, w') \<and>
          stderr w' = stderr w @ (if cl_v cl then [attempt_message cl a] else []) \<and>
          conns w' = conns w \<and>
          length (socks w) \<le> length (socks w') \<and>
          (\<forall>j<length (socks w). socks w' ! j = socks w ! j)"
  using assms
  by (auto simp: refused_locally_def refused_at_proxy_def accepts_def socket_new_def
      conn_refused_def attempt_message_def Let_def print_verbose_stderr_refused nth_append
      split: connect_outcome.splits option.splits if_splits)

lemma next_connection_fatal:
  assumes "fatal cl a"
  shows "\<exists>w'. next_connection cl (a # rest) w = (Inl (fatal_error a), rest, w') \<and>
          (\<forall>d p. fatal_error a \<noteq> ConnectionRefused d p) \<and> fatal_error a \<noteq> StopIteration \<and>
          stderr w' = stderr w \<and> conns w' = conns w \<and>
          length (socks w) \<le> length (socks w') \<and>
          (\<forall>j<length (socks w). socks w' ! j = socks w ! j)"
  using assms
  by (auto simp: fatal_def refused_locally_def refused_at_proxy_def accepts_def socket_new_def
      fatal_error_def nth_append
      split: connect_outcome.splits option.splits if_splits)


lemma iter_Nil: "iter_connections cl caller [] w = ([], None, w)"
  by (simp add: iter_connections.simps)

lemma iter_accepts:
  assumes "accepts a"
  shows "\<exists>c w' w''. next_connection cl (a # rest) w = (Inr c, rest, w') \<and>
           iter_connections cl caller (a # rest) w =
             (if cl_z cl then iter_connections cl caller rest w''
              else (case iter_connections cl caller rest w'' of
                      (ys, e, w_end) \<Rightarrow> ((c, True) # ys, e, w_end))) \<and>
           c = \<lparr>net = length (socks w), conn_port = a_port a\<rparr> \<and>
           stderr w'' = stderr w @ (if cl_v cl then [attempt_message cl a] else []) \<and>
           conns w'' = conns w @ [c] \<and>
           length (socks w'') = Suc (length (socks w)) \<and>
           (\<forall>j<length (socks w). socks w'' ! j = socks w ! j) \<and>
           sock_closed (socks w'' ! length (socks w)) \<and>
           releases (socks w'' ! length (socks w)) = 1"
proof -
  let ?c = "\<lparr>net = length (socks w), conn_port = a_port a\<rparr>"
  from next_connection_accepts [OF assms, of cl rest w]
  obtain w' where n: "next_connection cl (a # rest) w = (Inr ?c, rest, w')"
    and e: "stderr w' = stderr w @ (if cl_v cl then [attempt_message cl a] else [])"
    and c: "conns w' = conns w @ [?c]"
    and l: "length (socks w') = Suc (length (socks w))"
    and o: "\<forall>j<length (socks w). socks w' ! j = socks w ! j"
    and k: "sock_ok (socks w' ! length (socks w))"
    and z: "sock_closed (socks w' ! length (socks w)) = cl_z cl"
    by blast
  let ?w1 = "(NetcatConnection_close ?c ^^ caller ?c) w'"
  let ?w'' = "NetcatConnection_close ?c (if cl_z cl then w' else ?w1)"
  from l have lt: "length (socks w) < length (socks w')" by simp
  have nc: "length (socks w) = net ?c" by simp
  have d: "sock_closed (socks ?w'' ! length (socks w)) \<and> releases (socks ?w'' ! length (socks w)) = 1"
  proof (cases "cl_z cl")
    case True
    with lt k show ?thesis by (simp add: close_self [OF nc] socket_close_ok_done)
  next
    case False
    with close_after_closes_done [OF nc lt k, of "caller ?c"] show ?thesis by simp
  qed
  have op: "\<not> cl_z cl \<Longrightarrow> sock_open w' ?c"
    using z l by (simp add: sock_open_def)
  have it: "iter_connections cl caller (a # rest) w =
      (if cl_z cl then iter_connections cl caller rest ?w''
       else (case iter_connections cl caller rest ?w'' of (ys, e, w_end) \<Rightarrow> ((?c, True) # ys, e, w_end)))"
    using n op by (simp add: iter_connections.simps [of cl caller "a # rest" w] Let_def)
  have fr: "\<forall>j<length (socks w). socks ?w'' ! j = socks w ! j"
    using o by (simp add: close_other closes_other)
  show ?thesis
    apply (rule exI [of _ ?c], rule exI [of _ w'], rule exI [of _ ?w''])
    using n it e c l d fr by simp
qed

lemma iter_refused:
  assumes "refused_locally a \<or> refused_at_proxy cl a"
  shows "\<exists>w'. iter_connections cl caller (a # rest) w = iter_connections cl caller rest w' \<and>
          stderr w' = stderr w @ (if cl_v cl then [attempt_message cl a] else []) \<and>
          conns w' = conns w \<and>
          length (socks w) \<le> length (socks w') \<and>
          (\<forall>j<length (socks w). socks w' ! j = socks w ! j)"
proof -
  from next_connection_refused [OF assms, of rest w]
  obtain d p w' where n: "next_connection cl (a # rest) w = (Inl (ConnectionRefused d p), rest, w')"
    and r: "stderr w' = stderr w @ (if cl_v cl then [attempt_message cl a] else [])"
      "conns w' = conns w" "length (socks w) \<le> length (socks w')"
      "\<forall>j<length (socks w). socks w' ! j = socks w ! j"
    by blast
  from n have "iter_connections cl caller (a # rest) w = iter_connections cl caller rest w'"
    by (simp add: iter_connections.simps [of cl caller "a # rest" w])
  with r show ?thesis by blast
qed

lemma iter_fatal:
  assumes "fatal cl a"
  shows "\<exists>w'. iter_connections cl caller (a # rest) w = ([], Some (fatal_error a), w') \<and>
          stderr w' = stderr w \<and> conns w' = conns w \<and>
          length (socks w) \<le> length (socks w') \<and>
          (\<forall>j<length (socks w). socks w' ! j = socks w ! j)"
proof -
  from next_connection_fatal [OF assms, of rest w]
  obtain w' where n: "next_connection cl (a # rest) w = (Inl (fatal_error a), rest, w')"
    and f: "\<forall>d p. fatal_error a \<noteq> ConnectionRefused d p" "fatal_error a \<noteq> StopIteration"
    and r: "stderr w' = stderr w" "conns w' = conns w" "length (socks w) \<le> length (socks w')"
      "\<forall>j<length (socks w). socks w' ! j = socks w ! j"
    by blast
  from n f have "iter_connections cl caller (a # rest) w = ([], Some (fatal_error a), w')"
    by (cases "fatal_error a") (simp_all add: iter_connections.simps [of cl caller "a # rest" w])
  with r show ?thesis by blast
qed


lemma released_once_frame:
  assumes "released_once w" and "conns w' = conns w"
    and "length (socks w) \<le> length (socks w')"
    and "\<forall>j<length (socks w). socks w' ! j = socks w ! j"
  shows "released_once w'"
  using assms by (auto simp: released_once_def list_all_iff)

lemma released_once_accept:
  assumes "released_once w" and "conns w' = conns w @ [c]" and "net c = length (socks w)"
    and "length (socks w') = Suc (length (socks w))"
    and "\<forall>j<length (socks w). socks w' ! j = socks w ! j"
    and "sock_closed (socks w' ! length (socks w))"
    and "releases (socks w' ! length (socks w)) = 1"
  shows "released_once w'"
  using assms by (auto simp: released_once_def list_all_iff)

lemma fatal_cases:
  obtains (fatal) "fatal cl a"
  | (accepts) "accepts a" "\<not> fatal cl a"
  | (refused) "refused_locally a \<or> refused_at_proxy cl a" "\<not> accepts a" "\<not> fatal cl a"
  by (auto simp: fatal_def)

lemma iter_connections_run:
  assumes "iter_connections cl caller atts w = (ys, e, w_end)"
  shows "e = (case dropWhile (\<lambda>a. \<not> fatal cl a) atts of [] \<Rightarrow> None
              | a # _ \<Rightarrow> Some (fatal_error a)) \<and>
         stderr w_end =
           stderr w @ (if cl_v cl then map (attempt_message cl) (reached cl atts) else []) \<and>
         (\<exists>cs. conns w_end = conns w @ cs \<and>
            map conn_port cs = map a_port (filter accepts (reached cl atts)) \<and>
            map fst ys = (if cl_z cl then [] else cs)) \<and>
         list_all snd ys \<and>
         (released_once w \<longrightarrow> released_once w_end)"
  using assms
proof (induction atts arbitrary: w ys e w_end)
  case Nil
  then show ?case by (simp add: iter_Nil reached_def)
next
  case (Cons a rest)
  show ?case
  proof (cases rule: fatal_cases [of cl a])
    case fatal
    from iter_fatal [OF fatal, of caller rest w] Cons.prems
    have "ys = []" and "e = Some (fatal_error a)" and "stderr w_end = stderr w"
      and "conns w_end = conns w" and "length (socks w) \<le> length (socks w_end)"
      and "\<forall>j<length (socks w). socks w_end ! j = socks w ! j"
      by auto
    with fatal show ?thesis
      by (auto simp: reached_def intro: released_once_frame)
  next
    case accepts
    from iter_accepts [OF accepts(1), of cl rest w caller]
    obtain c w' where
      it: "iter_connections cl caller (a # rest) w =
        (if cl_z cl then iter_connections cl caller rest w'
         else (case iter_connections cl caller rest w' of
                 (ys, e, w_end) \<Rightarrow> ((c, True) # ys, e, w_end)))"
      and c: "c = \<lparr>net = length (socks w), conn_port = a_port a\<rparr>"
      and st: "stderr w' = stderr w @ (if cl_v cl then [attempt_message cl a] else [])"
      and co: "conns w' = conns w @ [c]"
      and wd: "length (socks w') = Suc (length (socks w))"
        "\<forall>j<length (socks w). socks w' ! j = socks w ! j"
        "sock_closed (socks w' ! length (socks w))"
        "releases (socks w' ! length (socks w)) = 1"
      by blast
    obtain ys' e' w_end' where r: "iter_connections cl caller rest w' = (ys', e', w_end')"
      by (cases "iter_connections cl caller rest w'") auto
    note IH = Cons.IH [OF r]
    from it r Cons.prems have eq: "e = e'" "w_end = w_end'"
      "ys = (if cl_z cl then ys' else (c, True) # ys')"
      by (auto split: if_splits)
    from IH obtain cs where cs: "conns w_end' = conns w' @ cs"
      "map conn_port cs = map a_port (filter accepts (reached cl rest))"
      "map fst ys' = (if cl_z cl then [] else cs)"
      by blast
    from c have nc: "net c = length (socks w)" by simp
    have ro: "released_once w \<Longrightarrow> released_once w'"
      using co nc wd by (blast intro: released_once_accept)
    have 1: "e = (case dropWhile (\<lambda>a. \<not> fatal cl a) (a # rest) of [] \<Rightarrow> None
              | a # _ \<Rightarrow> Some (fatal_error a))"
      using IH eq accepts(2) by simp
    have 2: "stderr w_end = stderr w @
        (if cl_v cl then map (attempt_message cl) (reached cl (a # rest)) else [])"
      using IH eq st accepts(2) by (simp add: reached_def)
    have 3: "conns w_end = conns w @ (c # cs) \<and>
        map conn_port (c # cs) = map a_port (filter accepts (reached cl (a # rest))) \<and>
        map fst ys = (if cl_z cl then [] else c # cs)"
      using cs eq co c accepts by (simp add: reached_def)
    have 4: "list_all snd ys" using IH eq by simp
    have 5: "released_once w \<longrightarrow> released_once w_end" using IH eq ro by simp
    from 1 2 3 4 5 show ?thesis by blast
  next
    case refused
    from iter_refused [OF refused(1), of caller rest w]
    obtain w' where
      it: "iter_connections cl caller (a # rest) w = iter_connections cl caller rest w'"
      and st: "stderr w' = stderr w @ (if cl_v cl then [attempt_message cl a] else [])"
      and co: "conns w' = conns w"
      and wd: "length (socks w) \<le> length (socks w')"
        "\<forall>j<length (socks w). socks w' ! j = socks w ! j"
      by blast
    from it Cons.prems have r: "iter_connections cl caller rest w' = (ys, e, w_end)" by simp
    note IH = Cons.IH [OF r]
    have ro: "released_once w \<Longrightarrow> released_once w'"
      using co wd by (blast intro: released_once_frame)
    from IH st co ro refused(2,3) show ?thesis
      by (auto simp: reached_def)
  qed
qed


lemma fatal_error_not_refused: "fatal cl a \<Longrightarrow> fatal_error a \<noteq> ConnectionRefused d p"
  by (auto simp: fatal_def refused_locally_def refused_at_proxy_def accepts_def fatal_error_def
      split: connect_outcome.splits option.splits if_splits)

lemma dropWhile_fatal:
  assumes "dropWhile (\<lambda>a. \<not> fatal cl a) atts = a # rest"
  shows "fatal cl a" and "a \<in> set atts"
proof -
  from assms hd_dropWhile [of "\<lambda>a. \<not> fatal cl a" atts] show "fatal cl a" by auto
  from assms have "a \<in> set (dropWhile (\<lambda>a. \<not> fatal cl a) atts)" by simp
  then show "a \<in> set atts" by (rule set_dropWhileD)
qed

lemma dropWhile_Nil_iff:
  "dropWhile (\<lambda>a. \<not> fatal cl a) atts = [] \<longleftrightarrow> list_all (\<lambda>a. \<not> fatal cl a) atts"
  by (simp add: list_all_iff)

lemma z_irrelevant [simp]:
  "fatal (cl\<lparr>cl_z := b\<rparr>) a = fatal cl a"
  "attempt_message (cl\<lparr>cl_z := b\<rparr>) a = attempt_message cl a"
  "reached (cl\<lparr>cl_z := b\<rparr>) atts = reached cl atts"
  by (simp_all add: fatal_def refused_at_proxy_def attempt_message_def reached_def
      split: connect_outcome.splits option.splits)

lemma released_once_world0: "released_once world0"
  by (simp add: released_once_def world0_def)

text \<open>
  Claim C4, for a client that is not in zero-I/O mode: no refusal reaches the caller
  (the generator ends by returning, or with the error of the first fatal attempt); for
  every attempt reached, the verbose line of \<open>attempt_message\<close> is written when
  \<open>v\<close> is set, which for a refusal names the destination and the port, or the
  proxy's address and port when the proxy hop refused; and the connections yielded are,
  in order, one for every accepting port reached, each open when handed over and each on
  a socket of its own.
\<close>

theorem refused_ports_are_skipped:
  assumes "\<not> cl_z cl"
  shows "case iter_connections cl caller atts world0 of
           (ys, e, w_end) \<Rightarrow>
             (\<forall>d p. e \<noteq> Some (ConnectionRefused d p)) \<and>
             (e = None \<longleftrightarrow> list_all (\<lambda>a. \<not> fatal cl a) atts) \<and>
             stderr w_end = (if cl_v cl then map (attempt_message cl) (reached cl atts) else []) \<and>
             map (conn_port \<circ> fst) ys = map a_port (filter accepts (reached cl atts)) \<and>
             list_all snd ys \<and>
             distinct (map (net \<circ> fst) ys)"
proof -
  obtain ys e w_end where r: "iter_connections cl caller atts world0 = (ys, e, w_end)"
    by (cases "iter_connections cl caller atts world0") auto
  note run = iter_connections_run [OF r]
  from run obtain cs where cs: "conns w_end = cs"
    "map conn_port cs = map a_port (filter accepts (reached cl atts))" "map fst ys = cs"
    using assms by (auto simp: world0_def)
  from run released_once_world0 have "released_once w_end" by blast
  with cs have d: "distinct (map (net \<circ> fst) ys)"
    by (simp add: released_once_def map_map [symmetric] del: map_map)
  from cs have p: "map (conn_port \<circ> fst) ys = map a_port (filter accepts (reached cl atts))"
    by (simp add: map_map [symmetric] del: map_map)
  from run have e: "e = (case dropWhile (\<lambda>a. \<not> fatal cl a) atts of [] \<Rightarrow> None
              | a # _ \<Rightarrow> Some (fatal_error a))" by blast
  have e1: "\<forall>d p. e \<noteq> Some (ConnectionRefused d p)"
    using e by (auto split: list.splits dest!: dropWhile_fatal(1) simp: fatal_error_not_refused)
  have e2: "e = None \<longleftrightarrow> list_all (\<lambda>a. \<not> fatal cl a) atts"
    using e by (auto split: list.splits simp: list_all_iff dest: dropWhile_fatal)
  from run have s: "stderr w_end =
      (if cl_v cl then map (attempt_message cl) (reached cl atts) else [])"
    by (simp add: world0_def)
  from run have l: "list_all snd ys" by blast
  from r e1 e2 s p l d show ?thesis by simp
qed

text \<open>
  Claim C5: a client with \<open>z\<close> set yields no connection; what it writes to the
  error stream and how its iteration ends are what the same client without \<open>z\<close>
  writes and how it ends, whatever the caller does with the connections; and
  \<open>next_connection\<close> returns every successful connection with its socket closed
  and released.
\<close>

theorem zero_io_never_yields:
  assumes "cl_z cl"
  shows "(case iter_connections cl caller atts world0 of
            (ys, e, w_end) \<Rightarrow>
              ys = [] \<and>
              (case iter_connections (cl\<lparr>cl_z := False\<rparr>) caller' atts world0 of
                 (ys', e', w_end') \<Rightarrow> stderr w_end = stderr w_end' \<and> e = e')) \<and>
         (\<forall>a rest w. accepts a \<longrightarrow>
            (case next_connection cl (a # rest) w of
               (r, rest', w') \<Rightarrow>
                 r = Inr \<lparr>net = length (socks w), conn_port = a_port a\<rparr> \<and>
                 length (socks w) < length (socks w') \<and>
                 sock_closed (socks w' ! length (socks w)) \<and>
                 releases (socks w' ! length (socks w)) = 1))"
proof (intro conjI allI impI)
  obtain ys e w_end where r: "iter_connections cl caller atts world0 = (ys, e, w_end)"
    by (cases "iter_connections cl caller atts world0") auto
  obtain ys' e' w_end' where
    r': "iter_connections (cl\<lparr>cl_z := False\<rparr>) caller' atts world0 = (ys', e', w_end')"
    by (cases "iter_connections (cl\<lparr>cl_z := False\<rparr>) caller' atts world0") auto
  note run = iter_connections_run [OF r]
  note run' = iter_connections_run [OF r']
  from run assms have "ys = []" by auto
  moreover from run run' have "stderr w_end = stderr w_end'" by simp
  moreover from run run' have "e = e'" by simp
  ultimately show "case iter_connections cl caller atts world0 of
            (ys, e, w_end) \<Rightarrow>
              ys = [] \<and>
              (case iter_connections (cl\<lparr>cl_z := False\<rparr>) caller' atts world0 of
                 (ys', e', w_end') \<Rightarrow> stderr w_end = stderr w_end' \<and> e = e')"
    using r r' by simp
next
  fix a rest w
  assume "accepts a"
  from next_connection_accepts [OF this, of cl rest w] assms
  show "case next_connection cl (a # rest) w of
               (r, rest', w') \<Rightarrow>
                 r = Inr \<lparr>net = length (socks w), conn_port = a_port a\<rparr> \<and>
                 length (socks w) < length (socks w') \<and>
                 sock_closed (socks w' ! length (socks w)) \<and>
                 releases (socks w' ! length (socks w)) = 1"
    by (auto simp: sock_ok_def)
qed

text \<open>
  Claim C8: a connection has the one socket \<open>net\<close>. After a client's iteration,
  in zero-I/O mode or not and whether or not the caller closed the connections it was
  given, every connection constructed has a socket of its own that is closed and was
  released exactly once; and closing a connection one or more times releases its socket
  exactly once.
\<close>

theorem connections_released_once:
  "(case iter_connections cl caller atts world0 of
      (ys, e, w_end) \<Rightarrow>
        released_once w_end \<and>
        map conn_port (conns w_end) = map a_port (filter accepts (reached cl atts)) \<and>
        (if cl_z cl then ys = [] else map fst ys = conns w_end)) \<and>
   (\<forall>k. net c < length (socks w) \<and> \<not> sock_closed (socks w ! net c) \<and>
        releases (socks w ! net c) = 0 \<longrightarrow>
      releases (socks ((NetcatConnection_close c ^^ Suc k) w) ! net c) = 1)"
proof (intro conjI allI impI)
  obtain ys e w_end where r: "iter_connections cl caller atts world0 = (ys, e, w_end)"
    by (cases "iter_connections cl caller atts world0") auto
  note run = iter_connections_run [OF r]
  from run released_once_world0 have "released_once w_end" by blast
  moreover from run
  have "map conn_port (conns w_end) = map a_port (filter accepts (reached cl atts))"
    by (auto simp: world0_def)
  moreover from run have "if cl_z cl then ys = [] else map fst ys = conns w_end"
    by (auto simp: world0_def)
  ultimately show "case iter_connections cl caller atts world0 of
      (ys, e, w_end) \<Rightarrow>
        released_once w_end \<and>
        map conn_port (conns w_end) = map a_port (filter accepts (reached cl atts)) \<and>
        (if cl_z cl then ys = [] else map fst ys = conns w_end)"
    using r by simp
next
  fix k
  assume a: "net c < length (socks w) \<and> \<not> sock_closed (socks w ! net c) \<and>
        releases (socks w ! net c) = 0"
  then have "sock_ok (socks w ! net c)" by (simp add: sock_ok_def)
  with a close_after_closes_done [of "net c" c w k]
  show "releases (socks ((NetcatConnection_close c ^^ Suc k) w) ! net c) = 1"
    by simp
qed

lemmas eval_client =
  localhost_client_def refused_then_open_def never_closes_def world0_def
  reached_def fatal_def accepts_def refused_locally_def refused_at_proxy_def
  attempt_message_def v_conn_refused_def v_conn_succeeded_def str_port_def str_int_def
  str_nat.simps ECONNREFUSED_def proxy_address_def proxy_port_def

theorem refused_ports_are_skipped_witness:
  "\<not> cl_z localhost_client \<and>
   (case iter_connections localhost_client never_closes refused_then_open world0 of
      (ys, e, w_end) \<Rightarrow>
        e = None \<and>
        stderr w_end =
          [''connect to localhost port 8000 (tcp) failed: Connection refused'',
           ''Connection to localhost 8001 port [tcp/*] succeeded!''] \<and>
        map (conn_port \<circ> fst) ys = [8001] \<and> list_all snd ys) \<and>
   (case iter_connections (localhost_client\<lparr>cl_x := Some ''10.0.0.1:3128''\<rparr>) never_closes
        proxy_refuses world0 of
      (ys, e, w_end) \<Rightarrow>
        e = None \<and> ys = [] \<and>
        stderr w_end = [''connect to 10.0.0.1 port 3128 (tcp) failed: Connection refused''])"
proof -
  have z: "\<not> cl_z localhost_client" by (simp add: localhost_client_def)
  have z': "\<not> cl_z (localhost_client\<lparr>cl_x := Some ''10.0.0.1:3128''\<rparr>)"
    by (simp add: localhost_client_def)
  have p: "py_int ''3128'' = Some 3128" by code_simp
  show ?thesis
    using refused_ports_are_skipped [OF z, where caller = never_closes and atts = refused_then_open]
      refused_ports_are_skipped [OF z', where caller = never_closes and atts = proxy_refuses] z p
    by (auto simp: eval_client proxy_refuses_def split: prod.splits)
qed

text \<open>
  A client in zero-I/O mode yields nothing for a port that accepts.
\<close>

theorem yield_every_open_port_counterexample:
  "accepts \<lparr>a_port = 8001, a_outcome = Connected, a_service = None\<rparr> \<and>
   fst (iter_connections (localhost_client\<lparr>cl_z := True\<rparr>) never_closes
     [\<lparr>a_port = 8001, a_outcome = Connected, a_service = None\<rparr>] world0) = []"
proof -
  obtain ys e w_end where r: "iter_connections (localhost_client\<lparr>cl_z := True\<rparr>) never_closes
     [\<lparr>a_port = 8001, a_outcome = Connected, a_service = None\<rparr>] world0 = (ys, e, w_end)"
    by (cases "iter_connections (localhost_client\<lparr>cl_z := True\<rparr>) never_closes
     [\<lparr>a_port = 8001, a_outcome = Connected, a_service = None\<rparr>] world0") auto
  from iter_connections_run [OF r] have "ys = []" by auto
  with r show ?thesis by (simp add: accepts_def)
qed

theorem zero_io_never_yields_witness:
  "cl_z (localhost_client\<lparr>cl_z := True\<rparr>) \<and>
   (case iter_connections (localhost_client\<lparr>cl_z := True\<rparr>) never_closes refused_then_open
        world0 of
      (ys, e, w_end) \<Rightarrow>
        ys = [] \<and> e = None \<and>
        stderr w_end =
          [''connect to localhost port 8000 (tcp) failed: Connection refused'',
           ''Connection to localhost 8001 port [tcp/*] succeeded!'']) \<and>
   (case next_connection (localhost_client\<lparr>cl_z := True\<rparr>)
        [\<lparr>a_port = 8001, a_outcome = Connected, a_service = None\<rparr>] world0 of
      (r, rest, w') \<Rightarrow> r = Inr \<lparr>net = 0, conn_port = 8001\<rparr> \<and> sock_closed (socks w' ! 0))"
proof -
  have z: "cl_z (localhost_client\<lparr>cl_z := True\<rparr>)" by simp
  have c: "localhost_client\<lparr>cl_z := True, cl_z := False\<rparr> = localhost_client"
    by (simp add: localhost_client_def)
  have a: "accepts \<lparr>a_port = 8001, a_outcome = Connected, a_service = None\<rparr>"
    by (simp add: accepts_def)
  note t = zero_io_never_yields [OF z, where caller = never_closes and atts = refused_then_open
      and caller' = never_closes]
  obtain ys' e' w_end' where
    r: "iter_connections localhost_client never_closes refused_then_open world0 = (ys', e', w_end')"
    by (cases "iter_connections localhost_client never_closes refused_then_open world0") auto
  from iter_connections_run [OF r]
  have u: "e' = None" "stderr w_end' =
      [''connect to localhost port 8000 (tcp) failed: Connection refused'',
       ''Connection to localhost 8001 port [tcp/*] succeeded!'']"
    by (simp_all add: eval_client)
  have 1: "case iter_connections (localhost_client\<lparr>cl_z := True\<rparr>) never_closes
      refused_then_open world0 of
      (ys, e, w_end) \<Rightarrow>
        ys = [] \<and> e = None \<and>
        stderr w_end =
          [''connect to localhost port 8000 (tcp) failed: Connection refused'',
           ''Connection to localhost 8001 port [tcp/*] succeeded!'']"
    using t [THEN conjunct1] r u c by (auto split: prod.splits)
  have 2: "case next_connection (localhost_client\<lparr>cl_z := True\<rparr>)
        [\<lparr>a_port = 8001, a_outcome = Connected, a_service = None\<rparr>] world0 of
      (r, rest, w') \<Rightarrow> r = Inr \<lparr>net = 0, conn_port = 8001\<rparr> \<and> sock_closed (socks w' ! 0)"
    using t [THEN conjunct2, rule_format, OF a, where rest = "[]" and w = world0]
    by (auto simp: world0_def split: prod.splits)
  from z 1 2 show ?thesis by blast
qed

text \<open>
  In zero-I/O mode \<open>close\<close> is called twice on a connection, by
  \<open>next_connection\<close> and by the generator's \<open>finally\<close>; the second call finds
  the socket closed and releases nothing.
\<close>

lemma zero_io_close_called_twice:
  "close_calls (socks (snd (snd (iter_connections (localhost_client\<lparr>cl_z := True\<rparr>)
      never_closes [\<lparr>a_port = 8001, a_outcome = Connected, a_service = None\<rparr>] world0))) ! 0) = 2 \<and>
   releases (socks (snd (snd (iter_connections (localhost_client\<lparr>cl_z := True\<rparr>)
      never_closes [\<lparr>a_port = 8001, a_outcome = Connected, a_service = None\<rparr>] world0))) ! 0) = 1"
  by (simp add: iter_connections.simps localhost_client_def world0_def never_closes_def
      socket_new_def conn_succeeded_def print_verbose_def Let_def NetcatConnection_close_def
      socket_close_def v_conn_succeeded_def)

theorem connections_released_once_witness:
  "released_once (snd (snd (iter_connections (localhost_client\<lparr>cl_z := True\<rparr>) never_closes
     refused_then_open world0))) \<and>
   map conn_port (conns (snd (snd (iter_connections (localhost_client\<lparr>cl_z := True\<rparr>)
     never_closes refused_then_open world0)))) = [8001] \<and>
   releases (socks ((NetcatConnection_close \<lparr>net = 0, conn_port = 8001\<rparr> ^^ Suc 1)
     \<lparr>socks = [\<lparr>sock_closed = False, releases = 0, close_calls = 0\<rparr>],
      conns = [\<lparr>net = 0, conn_port = 8001\<rparr>], stderr = []\<rparr>) ! 0) = 1"
proof -
  let ?c = "\<lparr>net = 0, conn_port = 8001\<rparr>"
  let ?w = "\<lparr>socks = [\<lparr>sock_closed = False, releases = 0, close_calls = 0\<rparr>],
      conns = [?c], stderr = []\<rparr>"
  note t = connections_released_once [where cl = "localhost_client\<lparr>cl_z := True\<rparr>"
      and caller = never_closes and atts = refused_then_open and c = ?c and w = ?w]
  have 1: "released_once (snd (snd (iter_connections (localhost_client\<lparr>cl_z := True\<rparr>)
      never_closes refused_then_open world0))) \<and>
    map conn_port (conns (snd (snd (iter_connections (localhost_client\<lparr>cl_z := True\<rparr>)
     never_closes refused_then_open world0)))) = [8001]"
    using t [THEN conjunct1] by (auto simp: eval_client split: prod.splits)
  have 2: "releases (socks ((NetcatConnection_close ?c ^^ Suc 1) ?w) ! 0) = 1"
    using t [THEN conjunct2, rule_format, where k = 1] by simp
  from 1 2 show ?thesis by blast
qed

section \<open>Properties of the relay loop\<close>

lemma idle_check_Continue:
  "idle_check c t s = Continue s' \<Longrightarrow>
     s' = s \<and> (\<forall>w. opt_w c = Some w \<longrightarrow> now_idle t - idle_time s < real_of_int w)"
  by (auto simp: idle_check_def split: option.splits if_splits)

lemma stdin_step_idle:
  assumes "\<not> opt_d c" and "opt_w c = Some w" and "stdin_step c t s = Continue s'"
  shows "now_idle t - idle_time s' < real_of_int w"
proof -
  from assms(1,3) obtain s1 where "idle_check c t s1 = Continue s'"
    by (auto simp: stdin_step_def split: sum.splits step_result.splits)
  with assms(2) show ?thesis by (auto dest: idle_check_Continue)
qed

lemma try_body_Continue:
  "try_body c t s = Continue s' \<Longrightarrow> \<exists>s1. netin c t s = Continue s1 \<and> stdin_step c t s1 = Continue s'"
  by (auto simp: try_body_def split: if_splits step_result.splits)

lemma iteration_Continue: "iteration c t s = Continue s' \<longleftrightarrow> try_body c t s = Continue s'"
  by (auto simp: iteration_def split: step_result.splits relay_exn.splits)

lemma iteration_idle:
  assumes "\<not> opt_d c" and "opt_w c = Some w" and "iteration c t s = Continue s'"
  shows "now_idle t - idle_time s' < real_of_int w"
proof -
  from assms(3) obtain s1 where "stdin_step c t s1 = Continue s'"
    by (auto simp: iteration_Continue dest: try_body_Continue)
  with assms(1,2) show ?thesis by (rule stdin_step_idle)
qed

lemma readwrite_loop_snoc:
  "readwrite_loop c (ts @ [t]) s =
     (case readwrite_loop c ts s of Continue s' \<Rightarrow> iteration c t s' | r \<Rightarrow> r)"
  by (induction ts arbitrary: s) (auto split: step_result.splits)

text \<open>
  With the input stream attached, a loop that is still running after a pass has been idle
  for less than the timeout at that pass's test: once \<open>w\<close> seconds have passed since
  the last transfer, the pass that sees it ends the loop.
\<close>

lemma attached_idle_timeout:
  assumes "\<not> opt_d c" and "opt_w c = Some w"
    and "readwrite_loop c (ts @ [t]) s = Continue s'"
  shows "now_idle t - idle_time s' < real_of_int w"
proof -
  from assms(3) obtain s1 where "iteration c t s1 = Continue s'"
    by (auto simp: readwrite_loop_snoc split: step_result.splits)
  with assms(1,2) show ?thesis by (rule iteration_idle)
qed

lemma silent_iteration_detached:
  "opt_d c \<Longrightarrow> 0 \<le> opt_i c \<Longrightarrow> \<not> netin_eof s \<Longrightarrow> iteration c (silent_tick now) s = Continue s"
  by (simp add: iteration_def try_body_def netin_def conn_recv_def recv_def stdin_step_def
      silent_tick_def)

text \<open>
  Detached from the input stream, a loop that hears nothing runs on whatever the clock
  says and whatever the timeout is.
\<close>

lemma detached_never_times_out:
  "opt_d c \<Longrightarrow> 0 \<le> opt_i c \<Longrightarrow> \<not> netin_eof s \<Longrightarrow>
     readwrite_loop c (map silent_tick nows) s = Continue s"
  by (induction nows) (simp_all add: silent_iteration_detached)

text \<open>
  Claim C2 holds for a connection that reads the input stream (\<open>attached_idle_timeout\<close>
  above) and fails for one that is detached from it (\<open>d\<close> set): the idle test stands
  inside the block of \<open>if not self.d\<close>, so such a loop never makes it. With a timeout
  of 2 seconds and nothing happening, the detached loop is still running after passes at
  1 to 5 seconds, where the attached one has ended with the idle timeout.
\<close>

theorem detached_idle_timeout_ignored:
  "readwrite (relay_defaults\<lparr>opt_d := True, opt_w := Some 2\<rparr>) 0 (map silent_tick [1, 2, 3, 4, 5]) =
     Continue \<lparr>netin_eof = False, stdin_eof = None, idle_time = 0, rd_shut = False,
       wr_shut = False, net_sent = [], stdout_written = []\<rparr> \<and>
   readwrite (relay_defaults\<lparr>opt_w := Some 2\<rparr>) 0 (map silent_tick [1, 2, 3, 4, 5]) =
     Exit IdleTimeout \<lparr>netin_eof = False, stdin_eof = None, idle_time = 0, rd_shut = False,
       wr_shut = False, net_sent = [], stdout_written = []\<rparr>"
  by (simp add: readwrite_def relay_defaults_def silent_tick_def iteration_def try_body_def
      netin_def conn_recv_def recv_def stdin_step_def idle_check_def)


lemma state_of_idle_check [simp]: "state_of (idle_check c t s) = s"
  by (simp add: idle_check_def split: option.splits)




lemma state_of_case_idle [simp]:
  "state_of (case r of Continue s' \<Rightarrow> idle_check c t s' | Exit x s' \<Rightarrow> Exit x s'
     | Raise e s' \<Rightarrow> Raise e s') = state_of r"
  by (cases r) simp_all








theorem detached_idle_timeout_ignored_witness:
  "readwrite (relay_defaults\<lparr>opt_d := True, opt_w := Some 2\<rparr>) 0 (map silent_tick [1, 2, 3, 4, 5]) \<noteq>
     readwrite (relay_defaults\<lparr>opt_w := Some 2\<rparr>) 0 (map silent_tick [1, 2, 3, 4, 5])"
  using detached_idle_timeout_ignored by simp




lemma netin_idle_time:
  assumes "netin c t s = Continue s1"
  shows "idle_time s1 =
     (if \<exists>b. conn_recv (opt_udp c) (t_select t) (t_recv t) = Inr (Some b) \<and> b \<noteq> []
      then now_recv t else idle_time s)"
  using assms
  by (auto simp: netin_def split: sum.splits relay_exn.splits option.splits if_splits)

lemma stdin_step_idle_time:
  assumes "stdin_step c t s1 = Continue s'"
  shows "idle_time s' =
     (if \<not> opt_d c \<and> (\<exists>b. t_stdin t = Inr (Some b) \<and> b \<noteq> []) then now_send t
      else idle_time s1)"
proof (cases "opt_d c")
  case True
  with assms show ?thesis by (simp add: stdin_step_def)
next
  case False
  with assms obtain d r where d: "t_stdin t = Inr d"
    and r: "r = (case d of None \<Rightarrow> Continue s1
        | Some b \<Rightarrow> if b \<noteq> [] then netout c t b s1 else stdin_at_eof c t s1)"
    and i: "(case r of Continue s'' \<Rightarrow> idle_check c t s'' | x \<Rightarrow> x) = Continue s'"
    by (auto simp: stdin_step_def split: sum.splits)
  from i obtain s2 where r2: "r = Continue s2" and "idle_check c t s2 = Continue s'"
    by (cases r) auto
  then have s2: "s2 = s'" by (auto dest: idle_check_Continue)
  show ?thesis
  proof (cases d)
    case None
    with r r2 s2 d False show ?thesis by simp
  next
    case (Some b)
    show ?thesis
    proof (cases "b = []")
      case True
      with Some r r2 s2 have "stdin_at_eof c t s1 = Continue s'" by simp
      then have "idle_time s' = idle_time s1"
        by (auto simp: stdin_at_eof_def Let_def split: if_splits option.splits)
      with True Some d show ?thesis by simp
    next
      case b: False
      with Some r r2 s2 have "netout c t b s1 = Continue s'" by simp
      then have "idle_time s' = now_send t"
        by (auto simp: netout_def Let_def split: option.splits relay_exn.splits if_splits)
      with b Some d False show ?thesis by simp
    qed
  qed
qed

text \<open>
  \<open>idle_time\<close> is the clock reading at the last successful transfer: a pass that goes
  on has set it after sending input, else after writing received bytes, else left it.
\<close>

lemma idle_time_is_last_transfer:
  assumes "iteration c t s = Continue s'"
  shows "idle_time s' =
     (if \<not> opt_d c \<and> (\<exists>b. t_stdin t = Inr (Some b) \<and> b \<noteq> []) then now_send t
      else if \<exists>b. conn_recv (opt_udp c) (t_select t) (t_recv t) = Inr (Some b) \<and> b \<noteq> []
      then now_recv t else idle_time s)"
proof -
  from assms obtain s1 where n: "netin c t s = Continue s1"
    and st: "stdin_step c t s1 = Continue s'"
    by (auto simp: iteration_Continue dest: try_body_Continue)
  show ?thesis
    by (simp only: stdin_step_idle_time [OF st] netin_idle_time [OF n])
qed

section \<open>Properties of the run operation\<close>

lemma status_after_hooks: "fold (\<lambda>h st. 0) hs (1::int) = (if hs = [] then 1 else 0)"
  by (induction hs rule: rev_induct) simp_all

text \<open>
  Claim C6, for a \<open>try\<close> block that finishes or ends in one of the three exceptions
  that \<open>pync\<close> handles: the result is an integer; it is 0 exactly when the block
  finished or left by the parser's exit after a client connection succeeded, a server
  started listening or help was printed, and 1 when none of these happened; a library
  error gives 1 and the line \<open>pync: <message>\<close>; an interrupt gives 130 and a blank
  line; the parser's exit gives 0 after help and 1 otherwise.
\<close>

theorem pync_exit_status:
  assumes "\<forall>e. ending b \<noteq> Some (OtherException e)"
  shows "(\<exists>n. fst (pync b) = Inr n \<and> (n = 0 \<or> n = 1 \<or> n = 130)) \<and>
         (ending b = None \<or> ending b = Some SystemExit \<longrightarrow>
            pync b = (Inr (if hooks b = [] then 1 else 0), [])) \<and>
         (\<forall>msg. ending b = Some (NetcatError msg) \<longrightarrow>
            pync b = (Inr 1, [''pync: '' @ msg @ [CHR 0x0A]])) \<and>
         (ending b = Some KeyboardInterrupt \<longrightarrow> pync b = (Inr 130, [[CHR 0x0A]])) \<and>
         pync help_exit = (Inr 0, []) \<and> pync usage_exit = (Inr 1, [])"
proof -
  have s: "fold (\<lambda>h st. 0) (hooks b) (1::int) = (if hooks b = [] then 1 else 0)"
    by (rule status_after_hooks)
  show ?thesis
  proof (cases "ending b")
    case None
    with s show ?thesis by (simp add: pync_def help_exit_def usage_exit_def)
  next
    case (Some r)
    with assms s show ?thesis
      by (cases r) (auto simp: pync_def help_exit_def usage_exit_def)
  qed
qed

theorem pync_exit_status_witness:
  "pync \<lparr>hooks = [ConnSucceeded], ending = None\<rparr> = (Inr 0, []) \<and>
   pync \<lparr>hooks = [ConnSucceeded], ending = Some (NetcatError ''boom'')\<rparr> =
     (Inr 1, [''pync: boom'' @ [CHR 0x0A]]) \<and>
   pync \<lparr>hooks = [Listening], ending = Some KeyboardInterrupt\<rparr> = (Inr 130, [[CHR 0x0A]]) \<and>
   pync \<lparr>hooks = [], ending = Some SystemExit\<rparr> = (Inr 1, [])"
  using pync_exit_status [of "\<lparr>hooks = [ConnSucceeded], ending = None\<rparr>"]
    pync_exit_status [of "\<lparr>hooks = [ConnSucceeded], ending = Some (NetcatError ''boom'')\<rparr>"]
    pync_exit_status [of "\<lparr>hooks = [Listening], ending = Some KeyboardInterrupt\<rparr>"]
    pync_exit_status [of "\<lparr>hooks = [], ending = Some SystemExit\<rparr>"]
  by simp

text \<open>
  An exception that is none of the three leaves \<open>pync\<close>, and no integer is returned:
  a client connects, the relay's send fails with a connection reset, \<open>readwrite\<close>
  re-raises the error, and \<open>pync\<close> has no handler for it.
\<close>

theorem pync_returns_integer_counterexample:
  "readwrite relay_defaults 0 [reset_tick] =
     Raise (OSError 104)
       \<lparr>netin_eof = False, stdin_eof = None, idle_time = 0, rd_shut = False, wr_shut = False,
        net_sent = [], stdout_written = []\<rparr> \<and>
   fst (pync \<lparr>hooks = [ConnSucceeded],
              ending = ending_of_relay (readwrite relay_defaults 0 [reset_tick])\<rparr>) =
     Inl ''OSError''"
proof -
  have r: "readwrite relay_defaults 0 [reset_tick] =
     Raise (OSError 104)
       \<lparr>netin_eof = False, stdin_eof = None, idle_time = 0, rd_shut = False, wr_shut = False,
        net_sent = [], stdout_written = []\<rparr>"
    by (simp add: readwrite_def relay_defaults_def reset_tick_def iteration_def try_body_def
        netin_def conn_recv_def recv_def stdin_step_def netout_def sendall_def EPIPE_def)
  show ?thesis
    by (simp add: r pync_def ending_of_relay_def exception_name_def)
qed

end
